theory Spec2Isabelle
  imports Main "HOL-Library.Sublist"
begin

section \<open>Storage initialization of the installer (pyanaconda/storage/initialization.py)\<close>

text \<open>
  The module is sequencing code over external collaborators: the storage library, the
  configuration services reached through proxies, the error handler and the static
  configuration. The embedding keeps every one of them explicit:
  \<^item> the objects the module reads and assigns are fields of one record, \<open>world\<close>;
  \<^item> every call that leaves the module is appended to \<open>trace\<close>, in program order;
  \<^item> what the collaborators answer is a parameter, the record \<open>env\<close>: each call may
    raise, depending on the calls made so far;
  \<^item> a Python exception is the outcome \<open>Raise\<close>, which keeps the world as it was when the
    exception left the call.
  \<open>create_storage\<close>, which builds the storage model, is not embedded: no property below
  is about it.
\<close>

subsection \<open>Exceptions and error-handler directives\<close>

text \<open>
  \<open>except StorageError\<close> matches the instances of that class and of its subclasses, and
  nothing else: the model distinguishes the two kinds.
\<close>

datatype exn = is_StorageError: StorageError string | OtherException string

text \<open>
  Modelled from the spec: pyanaconda.errors is not part of the sources. The handler
  answers a directive; the module compares it with \<open>ERROR_RAISE\<close> only.
\<close>

datatype directive = ERROR_RAISE | ERROR_CONTINUE | ERROR_OTHER nat

subsection \<open>The objects the module works on\<close>

text \<open>The static configuration \<open>conf\<close>: the entries this module reads.\<close>

record configuration =
  target_is_image :: bool
  target_is_directory :: bool
  security_selinux :: int
  storage_dmraid :: bool
  storage_ibft :: bool
  storage_multipath_friendly_names :: bool
  storage_allow_imperfect_devices :: bool

text \<open>
  The global flags of the storage library. \<open>other_flags\<close> stands for the flags that this
  module never assigns.
\<close>

record flags =
  debug :: bool
  lvm_metadata_backup :: bool
  auto_dev_updates :: bool
  selinux_reset_fcon :: bool
  keep_empty_ext_partitions :: bool
  discard_new :: bool
  selinux :: int
  dmraid :: bool
  ibft :: bool
  multipath_friendly_names :: bool
  allow_imperfect_devices :: bool
  other_flags :: "(string \<times> bool) list"

datatype lock = library_lock | program_log_lock

text \<open>The storage discovery configuration owned by the storage model.\<close>

record storage_config =
  clear_part_type :: int
  clear_part_disks :: "string list"
  clear_part_devices :: "string list"
  initialize_disks :: bool
  zero_mbr :: bool

record device =
  name :: string

record storage =
  config :: storage_config
  ignored_disks :: "string list"
  exclusive_disks :: "string list"
  default_fstype :: string
  default_boot_fstype :: string
  disks :: "device list"

text \<open>The state of the three configuration services, as their properties show it.\<close>

record disk_selection_service =
  SelectedDisks :: "string list"
  IgnoredDisks :: "string list"

record auto_partitioning_service =
  Enabled :: bool
  FilesystemType :: string

record disk_initialization_service =
  InitializationMode :: int
  DrivesToClear :: "string list"
  DevicesToClear :: "string list"
  InitializeLabelsEnabled :: bool
  FormatUnrecognizedEnabled :: bool

datatype dbus_object = DISK_SELECTION | AUTO_PARTITIONING | DISK_INITIALIZATION | FCOE | ZFCP

datatype plugin_spec = PluginSpec (plugin_name: string) (so_name: "string option")

subsection \<open>Calls, environment, world\<close>

text \<open>
  One constructor for each call that leaves the module. \<open>Storage_reset\<close> carries the
  storage model as the reset primitive receives it. \<open>Enter_reset_storage\<close> is the entry
  of \<open>reset_storage\<close> itself, recorded so that its invocations can be counted.
\<close>

datatype call =
    Enter_reset_storage
  | Storage_shutdown
  | Storage_reset storage
  | Set_default_fstype string
  | Set_default_boot_fstype string
  | Get_property dbus_object string
  | SetSelectedDisks "string list"
  | ReloadModule dbus_object
  | Iscsi_startup
  | Error_handler_cb exn
  | Log_debug string string
  | Platform_update_from_flags flags
  | Get_available_plugin_names
  | Blockdev_reinit "plugin_spec list" bool
  | Udev_trigger string string

text \<open>
  The environment: for a call and the calls made before it,
  \<^item> \<open>raises\<close>: the exception the call ends with, if any;
  \<^item> \<open>directive_of\<close>: the answer of the error handler;
  \<^item> \<open>library_effect\<close>: what \<open>shutdown\<close> and \<open>reset\<close> of the library do to the storage model;
  \<^item> \<open>reinit_loads\<close>: whether \<open>blockdev.reinit\<close> made the plugin available.
\<close>

record env =
  raises :: "call list \<Rightarrow> call \<Rightarrow> exn option"
  directive_of :: "call list \<Rightarrow> exn \<Rightarrow> directive"
  library_effect :: "call list \<Rightarrow> call \<Rightarrow> storage \<Rightarrow> storage"
  reinit_loads :: "call list \<Rightarrow> bool"

record world =
  conf :: configuration
  arch_is_s390 :: bool
  blivet_flags :: flags
  blivet_util_program_log_lock :: lock
  device_name_blacklist :: "string list"
  available_plugin_names :: "string list"
  auto_partitioning :: auto_partitioning_service
  disk_selection :: disk_selection_service
  disk_initialization :: disk_initialization_service
  storage :: storage
  trace :: "call list"

datatype 'a outcome = is_Return: Return 'a world | Raise exn world

fun world_of :: "'a outcome \<Rightarrow> world" where
  "world_of (Return x w) = w"
| "world_of (Raise e w) = w"

text \<open>The calls made between two worlds: what the later trace has beyond the earlier one.\<close>

definition new_calls :: "world \<Rightarrow> world \<Rightarrow> call list" where
  "new_calls w w' = drop (length (trace w)) (trace w')"

subsection \<open>Sequencing\<close>

text \<open>Statement after statement: an exception skips everything that follows.\<close>

definition and_then :: "(world \<Rightarrow> 'a outcome) \<Rightarrow> ('a \<Rightarrow> world \<Rightarrow> 'b outcome) \<Rightarrow> world \<Rightarrow> 'b outcome" where
  "and_then m f w = (case m w of Return x w' \<Rightarrow> f x w' | Raise e w' \<Rightarrow> Raise e w')"

definition assign :: "(world \<Rightarrow> world) \<Rightarrow> world \<Rightarrow> unit outcome" where
  "assign f w = Return () (f w)"

definition record_call :: "call \<Rightarrow> world \<Rightarrow> world" where
  "record_call c w = w\<lparr>trace := trace w @ [c]\<rparr>"

definition call_ext :: "env \<Rightarrow> call \<Rightarrow> world \<Rightarrow> unit outcome" where
  "call_ext env c w =
     (case raises env (trace w) c of
        Some e \<Rightarrow> Raise e (record_call c w)
      | None \<Rightarrow> Return () (record_call c w))"

text \<open>Reading a property of a proxy: a call to the service, then the value it holds.\<close>

definition get_property :: "env \<Rightarrow> dbus_object \<Rightarrow> string \<Rightarrow> (world \<Rightarrow> 'a) \<Rightarrow> world \<Rightarrow> 'a outcome" where
  "get_property env obj p sel = and_then (call_ext env (Get_property obj p)) (\<lambda>_ w. Return (sel w) w)"

text \<open>
  Modelled from the spec: the disk-selection service is not part of the sources; the list
  written with \<open>SetSelectedDisks\<close> is the one \<open>SelectedDisks\<close> shows afterwards.
\<close>

definition set_selected_disks :: "env \<Rightarrow> string list \<Rightarrow> world \<Rightarrow> unit outcome" where
  "set_selected_disks env xs =
     and_then (call_ext env (SetSelectedDisks xs))
       (\<lambda>_. assign (\<lambda>w. w\<lparr>disk_selection := (disk_selection w)\<lparr>SelectedDisks := xs\<rparr>\<rparr>))"

text \<open>Python's \<open>sep.join(xs)\<close>.\<close>

fun join :: "string \<Rightarrow> string list \<Rightarrow> string" where
  "join sep [] = []"
| "join sep [x] = x"
| "join sep (x # y # ys) = x @ sep @ join sep (y # ys)"

subsection \<open>select_all_disks_by_default\<close>

definition select_all_disks_by_default :: "env \<Rightarrow> world \<Rightarrow> string list outcome" where
  "select_all_disks_by_default env =
     and_then (get_property env DISK_SELECTION ''SelectedDisks'' (\<lambda>w. SelectedDisks (disk_selection w)))
       (\<lambda>selected_disks.
     and_then (get_property env DISK_SELECTION ''IgnoredDisks'' (\<lambda>w. IgnoredDisks (disk_selection w)))
       (\<lambda>ignored_disks w.
     if selected_disks = [] then
       (let selected_disks = map name (filter (\<lambda>d. name d \<notin> set ignored_disks) (disks (storage w))) in
        and_then (set_selected_disks env selected_disks) (\<lambda>_.
        and_then (call_ext env (Log_debug ''Selecting all disks by default: %s'' (join '','' selected_disks))) (\<lambda>_ w.
        Return selected_disks w)) w)
     else Return selected_disks w))"

subsection \<open>set_storage_defaults_from_kickstart\<close>

text \<open>
  Modelled from the spec: the two setters of the storage model are not part of the
  sources; each one overwrites the attribute it is named after with its argument.
\<close>

definition set_default_fstype :: "env \<Rightarrow> string \<Rightarrow> world \<Rightarrow> unit outcome" where
  "set_default_fstype env t =
     and_then (call_ext env (Set_default_fstype t))
       (\<lambda>_. assign (\<lambda>w. w\<lparr>storage := (storage w)\<lparr>default_fstype := t\<rparr>\<rparr>))"

definition set_default_boot_fstype :: "env \<Rightarrow> string \<Rightarrow> world \<Rightarrow> unit outcome" where
  "set_default_boot_fstype env t =
     and_then (call_ext env (Set_default_boot_fstype t))
       (\<lambda>_. assign (\<lambda>w. w\<lparr>storage := (storage w)\<lparr>default_boot_fstype := t\<rparr>\<rparr>))"

text \<open>
  \<open>fstype\<close> is read first; the condition then reads \<open>Enabled\<close>, and a string is true in
  Python when it is not empty.
\<close>

definition set_storage_defaults_from_kickstart :: "env \<Rightarrow> world \<Rightarrow> unit outcome" where
  "set_storage_defaults_from_kickstart env =
     and_then (get_property env AUTO_PARTITIONING ''FilesystemType'' (\<lambda>w. FilesystemType (auto_partitioning w)))
       (\<lambda>fstype.
     and_then (get_property env AUTO_PARTITIONING ''Enabled'' (\<lambda>w. Enabled (auto_partitioning w)))
       (\<lambda>enabled w.
     if enabled \<and> fstype \<noteq> [] then
       and_then (set_default_fstype env fstype) (\<lambda>_. set_default_boot_fstype env fstype) w
     else Return () w))"

subsection \<open>load_plugin_s390 and enable_installer_mode\<close>

text \<open>
  \<open>blockdev.reinit\<close> belongs to the library: whether the plugin is available afterwards
  is the environment's answer.
\<close>

definition load_plugin_s390 :: "env \<Rightarrow> world \<Rightarrow> unit outcome" where
  "load_plugin_s390 env w =
     (if target_is_directory (conf w) then Return () w
      else
        and_then (call_ext env Get_available_plugin_names) (\<lambda>_ w.
          if ''s390'' \<in> set (available_plugin_names w) then Return () w
          else
            (let plugin = PluginSpec ''s390'' None in
             and_then (call_ext env (Blockdev_reinit [plugin] False))
               (\<lambda>_. assign (\<lambda>w'. if reinit_loads env (trace w)
                                  then w'\<lparr>available_plugin_names := available_plugin_names w' @ [''s390'']\<rparr>
                                  else w'))) w) w)"

definition set_flags :: "(world \<Rightarrow> flags \<Rightarrow> flags) \<Rightarrow> world \<Rightarrow> world" where
  "set_flags f w = w\<lparr>blivet_flags := f w (blivet_flags w)\<rparr>"

definition enable_installer_mode :: "env \<Rightarrow> world \<Rightarrow> unit outcome" where
  "enable_installer_mode env =
     and_then (assign (\<lambda>w. w\<lparr>blivet_util_program_log_lock := program_log_lock\<rparr>)) (\<lambda>_.
     and_then (assign (set_flags (\<lambda>w f. f\<lparr>debug := True\<rparr>))) (\<lambda>_.
     and_then (\<lambda>w. if target_is_image (conf w)
                    then assign (set_flags (\<lambda>w f. f\<lparr>lvm_metadata_backup := False\<rparr>)) w
                    else Return () w) (\<lambda>_.
     and_then (assign (set_flags (\<lambda>w f. f\<lparr>auto_dev_updates := True\<rparr>))) (\<lambda>_.
     and_then (assign (set_flags (\<lambda>w f. f\<lparr>selinux_reset_fcon := True\<rparr>))) (\<lambda>_.
     and_then (assign (set_flags (\<lambda>w f. f\<lparr>keep_empty_ext_partitions := False\<rparr>))) (\<lambda>_.
     and_then (assign (set_flags (\<lambda>w f. f\<lparr>discard_new := True\<rparr>))) (\<lambda>_.
     and_then (assign (set_flags (\<lambda>w f. f\<lparr>selinux := security_selinux (conf w)\<rparr>))) (\<lambda>_.
     and_then (assign (set_flags (\<lambda>w f. f\<lparr>dmraid := storage_dmraid (conf w)\<rparr>))) (\<lambda>_.
     and_then (assign (set_flags (\<lambda>w f. f\<lparr>ibft := storage_ibft (conf w)\<rparr>))) (\<lambda>_.
     and_then (assign (set_flags (\<lambda>w f. f\<lparr>multipath_friendly_names := storage_multipath_friendly_names (conf w)\<rparr>))) (\<lambda>_.
     and_then (assign (set_flags (\<lambda>w f. f\<lparr>allow_imperfect_devices := storage_allow_imperfect_devices (conf w)\<rparr>))) (\<lambda>_.
     and_then (\<lambda>w. call_ext env (Platform_update_from_flags (blivet_flags w)) w) (\<lambda>_.
     and_then (\<lambda>w. if arch_is_s390 w then load_plugin_s390 env w else Return () w) (\<lambda>_.
     and_then (assign (\<lambda>w. w\<lparr>device_name_blacklist :=
                 [''^mtd'', ''^mmcblk.+boot'', ''^mmcblk.+rpmb'', ''^zram'', ''^ndblk'']\<rparr>)) (\<lambda>_.
     call_ext env (Udev_trigger ''block'' ''change''))))))))))))))))"

subsection \<open>update_storage_config and reset_storage\<close>

definition set_config :: "(storage_config \<Rightarrow> storage_config) \<Rightarrow> world \<Rightarrow> world" where
  "set_config f w = w\<lparr>storage := (storage w)\<lparr>config := f (config (storage w))\<rparr>\<rparr>"

text \<open>
  \<open>config\<close> is the object \<open>storage.config\<close>, passed by reference: the assignments land in
  the storage model.
\<close>

definition update_storage_config :: "env \<Rightarrow> world \<Rightarrow> unit outcome" where
  "update_storage_config env =
     and_then (get_property env DISK_INITIALIZATION ''InitializationMode''
                 (\<lambda>w. InitializationMode (disk_initialization w))) (\<lambda>v.
     and_then (assign (set_config (\<lambda>c. c\<lparr>clear_part_type := v\<rparr>))) (\<lambda>_.
     and_then (get_property env DISK_INITIALIZATION ''DrivesToClear''
                 (\<lambda>w. DrivesToClear (disk_initialization w))) (\<lambda>v.
     and_then (assign (set_config (\<lambda>c. c\<lparr>clear_part_disks := v\<rparr>))) (\<lambda>_.
     and_then (get_property env DISK_INITIALIZATION ''DevicesToClear''
                 (\<lambda>w. DevicesToClear (disk_initialization w))) (\<lambda>v.
     and_then (assign (set_config (\<lambda>c. c\<lparr>clear_part_devices := v\<rparr>))) (\<lambda>_.
     and_then (get_property env DISK_INITIALIZATION ''InitializeLabelsEnabled''
                 (\<lambda>w. InitializeLabelsEnabled (disk_initialization w))) (\<lambda>v.
     and_then (assign (set_config (\<lambda>c. c\<lparr>initialize_disks := v\<rparr>))) (\<lambda>_.
     and_then (get_property env DISK_INITIALIZATION ''FormatUnrecognizedEnabled''
                 (\<lambda>w. FormatUnrecognizedEnabled (disk_initialization w))) (\<lambda>v.
     assign (set_config (\<lambda>c. c\<lparr>zero_mbr := v\<rparr>)))))))))))"

text \<open>
  The two lifecycle methods of the storage model belong to the library: the call is
  recorded with the model it receives, the library changes the model as the environment
  says, and the call returns or raises.
\<close>

definition storage_reset :: "env \<Rightarrow> world \<Rightarrow> unit outcome" where
  "storage_reset env w =
     (let c = Storage_reset (storage w) in
      call_ext env c (w\<lparr>storage := library_effect env (trace w) c (storage w)\<rparr>))"

definition storage_shutdown :: "env \<Rightarrow> world \<Rightarrow> unit outcome" where
  "storage_shutdown env w =
     call_ext env Storage_shutdown
       (w\<lparr>storage := library_effect env (trace w) Storage_shutdown (storage w)\<rparr>)"

definition reload_additional_modules :: "env \<Rightarrow> world \<Rightarrow> unit outcome" where
  "reload_additional_modules env w =
     (if \<not> target_is_image (conf w) then
        and_then (call_ext env Iscsi_startup) (\<lambda>_.
        and_then (call_ext env (ReloadModule FCOE)) (\<lambda>_ w.
        if arch_is_s390 w then call_ext env (ReloadModule ZFCP) w else Return () w)) w
      else Return () w)"

definition reset_storage :: "env \<Rightarrow> world \<Rightarrow> unit outcome" where
  "reset_storage env =
     and_then (assign (record_call Enter_reset_storage)) (\<lambda>_.
     and_then (update_storage_config env) (\<lambda>_.
     and_then (get_property env DISK_SELECTION ''IgnoredDisks'' (\<lambda>w. IgnoredDisks (disk_selection w))) (\<lambda>v.
     and_then (assign (\<lambda>w. w\<lparr>storage := (storage w)\<lparr>ignored_disks := v\<rparr>\<rparr>)) (\<lambda>_.
     and_then (get_property env DISK_SELECTION ''SelectedDisks'' (\<lambda>w. SelectedDisks (disk_selection w))) (\<lambda>v.
     and_then (assign (\<lambda>w. w\<lparr>storage := (storage w)\<lparr>exclusive_disks := v\<rparr>\<rparr>)) (\<lambda>_.
     and_then (reload_additional_modules env) (\<lambda>_.
     storage_reset env)))))))"

subsection \<open>initialize_storage\<close>

definition error_handler_cb :: "env \<Rightarrow> exn \<Rightarrow> world \<Rightarrow> directive outcome" where
  "error_handler_cb env e w =
     and_then (call_ext env (Error_handler_cb e)) (\<lambda>_ w'. Return (directive_of env (trace w) e) w') w"

text \<open>
  \<open>while True\<close> has no bound: the loop takes the number of attempts it may make, and a
  run that has used them all without leaving the loop is \<open>Unfinished\<close>, with the world it
  has reached.
\<close>

datatype 'a run = Finished "'a outcome" | Unfinished world

fun run_world :: "'a run \<Rightarrow> world" where
  "run_world (Finished out) = world_of out"
| "run_world (Unfinished w) = w"

fun reset_loop :: "nat \<Rightarrow> env \<Rightarrow> world \<Rightarrow> unit run" where
  "reset_loop 0 env w = Unfinished w"
| "reset_loop (Suc n) env w =
     (case reset_storage env w of
        Return _ w' \<Rightarrow> Finished (Return () w')
      | Raise e w' \<Rightarrow>
          if is_StorageError e then
            (case error_handler_cb env e w' of
               Raise e' w'' \<Rightarrow> Finished (Raise e' w'')
             | Return d w'' \<Rightarrow>
                 if d = ERROR_RAISE then Finished (Raise e w'') else reset_loop n env w'')
          else Finished (Raise e w'))"

definition initialize_storage :: "nat \<Rightarrow> env \<Rightarrow> world \<Rightarrow> unit run" where
  "initialize_storage n env w =
     (case storage_shutdown env w of
        Raise e w' \<Rightarrow> Finished (Raise e w')
      | Return _ w' \<Rightarrow> reset_loop n env w')"

subsection \<open>The calls of a complete run, and what a run yields\<close>

text \<open>
  The storage model as \<open>reset_storage\<close> leaves it for the reset primitive, the calls of
  one \<open>reset_storage\<close> that nothing interrupts, and the flags \<open>enable_installer_mode\<close> sets.
  They are what the functions above are compared with; no function is defined by them.
\<close>

definition configured_storage :: "world \<Rightarrow> storage" where
  "configured_storage w =
     (storage w)\<lparr>config := (config (storage w))
         \<lparr>clear_part_type := InitializationMode (disk_initialization w),
          clear_part_disks := DrivesToClear (disk_initialization w),
          clear_part_devices := DevicesToClear (disk_initialization w),
          initialize_disks := InitializeLabelsEnabled (disk_initialization w),
          zero_mbr := FormatUnrecognizedEnabled (disk_initialization w)\<rparr>,
       ignored_disks := IgnoredDisks (disk_selection w),
       exclusive_disks := SelectedDisks (disk_selection w)\<rparr>"

definition config_calls :: "call list" where
  "config_calls =
     [Get_property DISK_INITIALIZATION ''InitializationMode'',
      Get_property DISK_INITIALIZATION ''DrivesToClear'',
      Get_property DISK_INITIALIZATION ''DevicesToClear'',
      Get_property DISK_INITIALIZATION ''InitializeLabelsEnabled'',
      Get_property DISK_INITIALIZATION ''FormatUnrecognizedEnabled'']"

definition reload_calls :: "world \<Rightarrow> call list" where
  "reload_calls w =
     (if target_is_image (conf w) then []
      else if arch_is_s390 w then [Iscsi_startup, ReloadModule FCOE, ReloadModule ZFCP]
      else [Iscsi_startup, ReloadModule FCOE])"

definition calls_before_reset :: "world \<Rightarrow> call list" where
  "calls_before_reset w =
     Enter_reset_storage # config_calls @
     [Get_property DISK_SELECTION ''IgnoredDisks'', Get_property DISK_SELECTION ''SelectedDisks'']
     @ reload_calls w"

definition reset_storage_calls :: "world \<Rightarrow> call list" where
  "reset_storage_calls w = calls_before_reset w @ [Storage_reset (configured_storage w)]"

definition installer_flags :: "configuration \<Rightarrow> flags \<Rightarrow> flags" where
  "installer_flags c f =
     f\<lparr>debug := True,
       lvm_metadata_backup := (if target_is_image c then False else lvm_metadata_backup f),
       auto_dev_updates := True,
       selinux_reset_fcon := True,
       keep_empty_ext_partitions := False,
       discard_new := True,
       selinux := security_selinux c,
       dmraid := storage_dmraid c,
       ibft := storage_ibft c,
       multipath_friendly_names := storage_multipath_friendly_names c,
       allow_imperfect_devices := storage_allow_imperfect_devices c\<rparr>"

text \<open>
  \<open>yields env m w cs Q R\<close>: started in \<open>w\<close>, the statement \<open>m\<close> either returns, having made
  exactly the calls \<open>cs\<close> and reached a world that satisfies \<open>Q\<close>, or raises the exception
  that the environment gave to one of them, having made the calls up to that one and
  reached a world that satisfies \<open>R\<close>.
\<close>

definition yields :: "env \<Rightarrow> (world \<Rightarrow> 'a outcome) \<Rightarrow> world \<Rightarrow> call list \<Rightarrow> ('a \<Rightarrow> world \<Rightarrow> bool) \<Rightarrow> (world \<Rightarrow> bool) \<Rightarrow> bool" where
  "yields env m w cs Q R =
     (case m w of
        Return x w' \<Rightarrow> trace w' = trace w @ cs \<and> Q x w'
      | Raise e w' \<Rightarrow>
          (\<exists>cs' c. prefix (cs' @ [c]) cs \<and> trace w' = trace w @ cs' @ [c]
                  \<and> raises env (trace w @ cs') c = Some e) \<and> R w')"

subsection \<open>Environments and worlds for the examples\<close>

definition no_exception :: "call list \<Rightarrow> call \<Rightarrow> exn option" where
  "no_exception h c = None"

definition quiet_env :: env where
  "quiet_env = \<lparr> raises = no_exception, directive_of = (\<lambda>h e. ERROR_CONTINUE),
                 library_effect = (\<lambda>h c s. s), reinit_loads = (\<lambda>h. True) \<rparr>"

text \<open>The reset primitive fails with a storage error while fewer than \<open>k\<close> resets were tried.\<close>

fun is_reset :: "call \<Rightarrow> bool" where
  "is_reset (Storage_reset s) = True"
| "is_reset c = False"

definition failing_resets :: "nat \<Rightarrow> call list \<Rightarrow> call \<Rightarrow> exn option" where
  "failing_resets k h c =
     (if is_reset c \<and> length (filter is_reset h) < k then Some (StorageError ''reset failed'') else None)"

definition failing_env :: "nat \<Rightarrow> directive \<Rightarrow> env" where
  "failing_env k d = \<lparr> raises = failing_resets k, directive_of = (\<lambda>h e. d),
                       library_effect = (\<lambda>h c s. s), reinit_loads = (\<lambda>h. True) \<rparr>"



definition disk :: "string \<Rightarrow> device" where
  "disk n = \<lparr> name = n \<rparr>"

definition example_storage :: storage where
  "example_storage =
     \<lparr> config = \<lparr> clear_part_type = 0, clear_part_disks = [], clear_part_devices = [],
                  initialize_disks = False, zero_mbr = False \<rparr>,
       ignored_disks = [], exclusive_disks = [],
       default_fstype = ''xfs'', default_boot_fstype = ''xfs'',
       disks = [disk ''sda'', disk ''sdb'', disk ''sdc''] \<rparr>"

definition example_world :: world where
  "example_world =
     \<lparr> conf = \<lparr> target_is_image = False, target_is_directory = False, security_selinux = 1,
                storage_dmraid = True, storage_ibft = True,
                storage_multipath_friendly_names = True,
                storage_allow_imperfect_devices = False \<rparr>,
       arch_is_s390 = False,
       blivet_flags = \<lparr> debug = False, lvm_metadata_backup = True, auto_dev_updates = False,
                        selinux_reset_fcon = False, keep_empty_ext_partitions = True,
                        discard_new = False, selinux = 0, dmraid = False, ibft = False,
                        multipath_friendly_names = False, allow_imperfect_devices = True,
                        other_flags = [] \<rparr>,
       blivet_util_program_log_lock = library_lock,
       device_name_blacklist = [],
       available_plugin_names = [],
       auto_partitioning = \<lparr> Enabled = True, FilesystemType = ''ext4'' \<rparr>,
       disk_selection = \<lparr> SelectedDisks = [], IgnoredDisks = [''sdb''] \<rparr>,
       disk_initialization = \<lparr> InitializationMode = 1, DrivesToClear = [''sda''],
                               DevicesToClear = [''sda1''], InitializeLabelsEnabled = True,
                               FormatUnrecognizedEnabled = True \<rparr>,
       storage = example_storage,
       trace = [] \<rparr>"

definition selected_world :: world where
  "selected_world =
     example_world\<lparr>disk_selection := \<lparr> SelectedDisks = [''sda'', ''sdb''], IgnoredDisks = [''sdb''] \<rparr>\<rparr>"

definition image_world :: world where
  "image_world = example_world\<lparr>conf := (conf example_world)\<lparr>target_is_image := True\<rparr>\<rparr>"

definition disabled_world :: world where
  "disabled_world =
     example_world\<lparr>auto_partitioning := \<lparr> Enabled = False, FilesystemType = ''ext4'' \<rparr>\<rparr>"

section \<open>Properties\<close>

subsection \<open>Rules for sequences of statements\<close>

lemma yields_call:
  assumes "yields env (f ()) (record_call c w) cs Q R" and "R (record_call c w)"
  shows "yields env (and_then (call_ext env c) f) w (c # cs) Q R"
proof (cases "raises env (trace w) c")
  case None
  then have eq: "and_then (call_ext env c) f w = f () (record_call c w)"
    by (simp add: and_then_def call_ext_def)
  show ?thesis
  proof (cases "f () (record_call c w)")
    case (Return x w')
    with assms(1) eq show ?thesis
      by (simp add: yields_def record_call_def)
  next
    case (Raise e w')
    with assms(1) obtain cs' c' where "prefix (cs' @ [c']) cs"
      and "trace w' = trace w @ (c # cs') @ [c']"
      and "raises env (trace w @ (c # cs')) c' = Some e" and "R w'"
      by (auto simp: yields_def record_call_def)
    then have "prefix ((c # cs') @ [c']) (c # cs) \<and> trace w' = trace w @ (c # cs') @ [c']
        \<and> raises env (trace w @ (c # cs')) c' = Some e"
      by simp
    then have "\<exists>cs' c'. prefix (cs' @ [c']) (c # cs) \<and> trace w' = trace w @ cs' @ [c']
        \<and> raises env (trace w @ cs') c' = Some e"
      by blast
    with Raise eq \<open>R w'\<close> show ?thesis
      by (simp add: yields_def)
  qed
next
  case (Some e)
  then have eq: "and_then (call_ext env c) f w = Raise e (record_call c w)"
    by (simp add: and_then_def call_ext_def)
  have "prefix ([] @ [c]) (c # cs) \<and> trace (record_call c w) = trace w @ [] @ [c]
      \<and> raises env (trace w @ []) c = Some e"
    using Some by (simp add: record_call_def)
  then have "\<exists>cs' c'. prefix (cs' @ [c']) (c # cs) \<and> trace (record_call c w) = trace w @ cs' @ [c']
      \<and> raises env (trace w @ cs') c' = Some e"
    by blast
  with eq assms(2) show ?thesis
    by (simp add: yields_def)
qed

lemma yields_return:
  assumes "Q x w"
  shows "yields env (Return x) w [] Q R"
  using assms by (simp add: yields_def)

lemma yields_and_then_return:
  "yields env (and_then m Return) w cs Q R = yields env m w cs Q R"
  by (simp add: yields_def and_then_def split: outcome.splits)

lemma yields_call_last:
  assumes "Q () (record_call c w)" and "R (record_call c w)"
  shows "yields env (call_ext env c) w [c] Q R"
proof -
  have "yields env (and_then (call_ext env c) Return) w [c] Q R"
    by (rule yields_call) (use assms in \<open>simp_all add: yields_def\<close>)
  then show ?thesis by (simp only: yields_and_then_return)
qed

lemma yields_get:
  assumes "yields env (f (sel (record_call (Get_property obj p) w))) (record_call (Get_property obj p) w) cs Q R"
    and "R (record_call (Get_property obj p) w)"
  shows "yields env (and_then (get_property env obj p sel) f) w (Get_property obj p # cs) Q R"
proof -
  have "and_then (get_property env obj p sel) f w
      = and_then (call_ext env (Get_property obj p)) (\<lambda>_ w'. f (sel w') w') w"
    by (simp add: and_then_def get_property_def split: outcome.splits)
  moreover have "yields env (and_then (call_ext env (Get_property obj p)) (\<lambda>_ w'. f (sel w') w')) w
                   (Get_property obj p # cs) Q R"
    by (rule yields_call) (use assms in \<open>simp_all add: yields_def\<close>)
  ultimately show ?thesis by (simp add: yields_def)
qed

lemma yields_assign:
  assumes "yields env (f ()) (g w) cs Q R" and "trace (g w) = trace w"
  shows "yields env (and_then (assign g) f) w cs Q R"
  using assms by (auto simp: yields_def and_then_def assign_def split: outcome.splits)

lemma yields_assign_last:
  assumes "Q () (g w)" and "trace (g w) = trace w"
  shows "yields env (assign g) w [] Q R"
  using assms by (simp add: yields_def assign_def)

lemma yields_mark:
  assumes "yields env (f ()) (record_call c w) cs Q R"
  shows "yields env (and_then (assign (record_call c)) f) w (c # cs) Q R"
proof (cases "f () (record_call c w)")
  case (Return x w')
  with assms show ?thesis
    by (simp add: yields_def and_then_def assign_def record_call_def)
next
  case (Raise e w')
  with assms obtain cs' c' where "prefix (cs' @ [c']) cs"
    and "trace w' = trace w @ (c # cs') @ [c']"
    and "raises env (trace w @ (c # cs')) c' = Some e" and "R w'"
    by (auto simp: yields_def record_call_def)
  then have "prefix ((c # cs') @ [c']) (c # cs) \<and> trace w' = trace w @ (c # cs') @ [c']
      \<and> raises env (trace w @ (c # cs')) c' = Some e"
    by simp
  then have "\<exists>cs' c'. prefix (cs' @ [c']) (c # cs) \<and> trace w' = trace w @ cs' @ [c']
      \<and> raises env (trace w @ cs') c' = Some e"
    by blast
  with Raise \<open>R w'\<close> show ?thesis
    by (simp add: yields_def and_then_def assign_def)
qed

lemma yields_if:
  assumes "b w \<Longrightarrow> yields env m1 w cs Q R" and "\<not> b w \<Longrightarrow> yields env m2 w cs Q R"
  shows "yields env (\<lambda>w. if b w then m1 w else m2 w) w cs Q R"
  using assms by (simp add: yields_def)

lemma yields_seq:
  assumes "yields env m w cs1 Q1 R"
    and "\<And>x w'. Q1 x w' \<Longrightarrow> trace w' = trace w @ cs1 \<Longrightarrow> yields env (f x) w' cs2 Q R"
  shows "yields env (and_then m f) w (cs1 @ cs2) Q R"
proof (cases "m w")
  case (Return x w')
  with assms(1) have q: "Q1 x w'" and t: "trace w' = trace w @ cs1"
    by (simp_all add: yields_def)
  note y = assms(2) [OF q t]
  show ?thesis
  proof (cases "f x w'")
    case Return': (Return x' w'')
    with y Return t show ?thesis
      by (simp add: yields_def and_then_def)
  next
    case (Raise e w'')
    with y t obtain cs' c' where "prefix (cs' @ [c']) cs2"
      and "trace w'' = trace w @ (cs1 @ cs') @ [c']"
      and "raises env (trace w @ (cs1 @ cs')) c' = Some e" and "R w''"
      by (auto simp: yields_def)
    then have "prefix ((cs1 @ cs') @ [c']) (cs1 @ cs2) \<and> trace w'' = trace w @ (cs1 @ cs') @ [c']
        \<and> raises env (trace w @ (cs1 @ cs')) c' = Some e"
      by simp
    then have "\<exists>cs' c'. prefix (cs' @ [c']) (cs1 @ cs2) \<and> trace w'' = trace w @ cs' @ [c']
        \<and> raises env (trace w @ cs') c' = Some e"
      by blast
    with Raise Return \<open>R w''\<close> show ?thesis
      by (simp add: yields_def and_then_def)
  qed
next
  case (Raise e w')
  with assms(1) obtain cs' c' where "prefix (cs' @ [c']) cs1"
    and t: "trace w' = trace w @ cs' @ [c']"
    and r: "raises env (trace w @ cs') c' = Some e" and "R w'"
    by (auto simp: yields_def)
  then have "prefix (cs' @ [c']) (cs1 @ cs2)"
    using prefix_prefix by blast
  with t r have "\<exists>cs' c'. prefix (cs' @ [c']) (cs1 @ cs2) \<and> trace w' = trace w @ cs' @ [c']
      \<and> raises env (trace w @ cs') c' = Some e"
    by blast
  with Raise \<open>R w'\<close> show ?thesis
    by (simp add: yields_def and_then_def)
qed

text \<open>What \<open>yields\<close> says about the calls made, whatever the outcome.\<close>

lemma yields_new_calls:
  assumes "yields env m w cs Q R"
  shows "trace (world_of (m w)) = trace w @ new_calls w (world_of (m w))"
    and "prefix (new_calls w (world_of (m w))) cs"
    and "is_Return (m w) \<Longrightarrow> new_calls w (world_of (m w)) = cs"
    and "cs \<noteq> [] \<Longrightarrow> new_calls w (world_of (m w)) \<noteq> []"
  using assms by (auto simp: yields_def new_calls_def split: outcome.splits)

text \<open>The exception of a run that raises is the answer of the environment to its last call.\<close>

lemma yields_Raise:
  assumes "yields env m w cs Q R" and "m w = Raise e w'"
  shows "\<exists>cs' c. prefix (cs' @ [c]) cs \<and> trace w' = trace w @ cs' @ [c]
           \<and> raises env (trace w @ cs') c = Some e"
  using assms by (simp add: yields_def)

lemma yields_Return:
  assumes "yields env m w cs Q R" and "m w = Return x w'"
  shows "trace w' = trace w @ cs \<and> Q x w'"
  using assms by (simp add: yields_def)

lemma call_ext_quiet:
  "raises env = no_exception \<Longrightarrow> call_ext env c w = Return () (record_call c w)"
  by (simp add: call_ext_def no_exception_def)

lemma get_property_quiet:
  "raises env = no_exception \<Longrightarrow>
     get_property env obj p sel w =
       Return (sel (record_call (Get_property obj p) w)) (record_call (Get_property obj p) w)"
  by (simp add: get_property_def and_then_def call_ext_quiet)

subsection \<open>The calls of reset_storage\<close>

lemma update_storage_config_yields:
  "yields env (update_storage_config env) w config_calls
     (\<lambda>_ w'. w' = w\<lparr>storage := (storage w)\<lparr>config := (config (storage w))
         \<lparr>clear_part_type := InitializationMode (disk_initialization w),
          clear_part_disks := DrivesToClear (disk_initialization w),
          clear_part_devices := DevicesToClear (disk_initialization w),
          initialize_disks := InitializeLabelsEnabled (disk_initialization w),
          zero_mbr := FormatUnrecognizedEnabled (disk_initialization w)\<rparr>\<rparr>,
          trace := trace w @ config_calls\<rparr>) (\<lambda>_. True)"
  unfolding update_storage_config_def config_calls_def
  by (rule yields_get yields_assign yields_assign_last | simp add: record_call_def set_config_def)+

lemma reload_additional_modules_yields:
  "yields env (reload_additional_modules env) w (reload_calls w)
     (\<lambda>_ w'. w' = w\<lparr>trace := trace w @ reload_calls w\<rparr>) (\<lambda>_. True)"
proof -
  have "yields env (\<lambda>w. reload_additional_modules env w) w (reload_calls w)
     (\<lambda>_ w'. w' = w\<lparr>trace := trace w @ reload_calls w\<rparr>) (\<lambda>_. True)"
    unfolding reload_additional_modules_def
  proof (rule yields_if)
    assume "\<not> target_is_image (conf w)"
    then show "yields env (and_then (call_ext env Iscsi_startup)
          (\<lambda>_. and_then (call_ext env (ReloadModule FCOE))
                (\<lambda>_ w. if arch_is_s390 w then call_ext env (ReloadModule ZFCP) w else Return () w)))
        w (reload_calls w) (\<lambda>_ w'. w' = w\<lparr>trace := trace w @ reload_calls w\<rparr>) (\<lambda>_. True)"
      by (cases "arch_is_s390 w"; simp add: reload_calls_def)
         ((rule yields_call yields_if yields_call_last yields_return | simp add: record_call_def)+)
  next
    assume "\<not> \<not> target_is_image (conf w)"
    then show "yields env (Return ()) w (reload_calls w)
                 (\<lambda>_ w'. w' = w\<lparr>trace := trace w @ reload_calls w\<rparr>) (\<lambda>_. True)"
      by (simp add: reload_calls_def yields_def)
  qed
  then show ?thesis by simp
qed

lemma storage_reset_yields:
  "yields env (storage_reset env) w [Storage_reset (storage w)]
     (\<lambda>_ w'. raises env (trace w) (Storage_reset (storage w)) = None) (\<lambda>_. True)"
proof (cases "raises env (trace w) (Storage_reset (storage w))")
  case None
  then show ?thesis
    by (simp add: storage_reset_def yields_def call_ext_def record_call_def Let_def)
next
  case (Some e)
  let ?c = "Storage_reset (storage w)"
  have "prefix ([] @ [?c]) [?c] \<and> trace w @ [?c] = trace w @ [] @ [?c]
      \<and> raises env (trace w @ []) ?c = Some e"
    using Some by simp
  then have "\<exists>cs' c. prefix (cs' @ [c]) [?c] \<and> trace w @ [?c] = trace w @ cs' @ [c]
      \<and> raises env (trace w @ cs') c = Some e"
    by blast
  with Some show ?thesis
    by (simp add: storage_reset_def yields_def call_ext_def record_call_def Let_def)
qed

lemma reload_then_reset_yields:
  "yields env (and_then (reload_additional_modules env) (\<lambda>_. storage_reset env)) w
     (reload_calls w @ [Storage_reset (storage w)])
     (\<lambda>_ w'. raises env (trace w @ reload_calls w) (Storage_reset (storage w)) = None) (\<lambda>_. True)"
proof (rule yields_seq [OF reload_additional_modules_yields])
  fix x :: unit and w'
  assume "w' = w\<lparr>trace := trace w @ reload_calls w\<rparr>"
  then show "yields env (storage_reset env) w' [Storage_reset (storage w)]
     (\<lambda>_ w'. raises env (trace w @ reload_calls w) (Storage_reset (storage w)) = None) (\<lambda>_. True)"
    using storage_reset_yields [of env w'] by simp
qed

lemma reload_calls_cong:
  "conf w' = conf w \<Longrightarrow> arch_is_s390 w' = arch_is_s390 w \<Longrightarrow> reload_calls w' = reload_calls w"
  by (simp add: reload_calls_def)

lemma select_then_reset_yields:
  "yields env
     (and_then (get_property env DISK_SELECTION ''IgnoredDisks'' (\<lambda>w. IgnoredDisks (disk_selection w))) (\<lambda>v.
      and_then (assign (\<lambda>w. w\<lparr>storage := (storage w)\<lparr>ignored_disks := v\<rparr>\<rparr>)) (\<lambda>_.
      and_then (get_property env DISK_SELECTION ''SelectedDisks'' (\<lambda>w. SelectedDisks (disk_selection w))) (\<lambda>v.
      and_then (assign (\<lambda>w. w\<lparr>storage := (storage w)\<lparr>exclusive_disks := v\<rparr>\<rparr>)) (\<lambda>_.
      and_then (reload_additional_modules env) (\<lambda>_. storage_reset env))))))
     w
     ([Get_property DISK_SELECTION ''IgnoredDisks'', Get_property DISK_SELECTION ''SelectedDisks'']
        @ reload_calls w @
      [Storage_reset ((storage w)\<lparr>ignored_disks := IgnoredDisks (disk_selection w),
                                   exclusive_disks := SelectedDisks (disk_selection w)\<rparr>)])
     (\<lambda>_ w'. raises env
                (trace w @ [Get_property DISK_SELECTION ''IgnoredDisks'',
                            Get_property DISK_SELECTION ''SelectedDisks''] @ reload_calls w)
                (Storage_reset ((storage w)\<lparr>ignored_disks := IgnoredDisks (disk_selection w),
                                             exclusive_disks := SelectedDisks (disk_selection w)\<rparr>)) = None)
     (\<lambda>_. True)"
proof -
  let ?w4 = "w\<lparr>trace := trace w @ [Get_property DISK_SELECTION ''IgnoredDisks'',
                                     Get_property DISK_SELECTION ''SelectedDisks''],
               storage := (storage w)\<lparr>ignored_disks := IgnoredDisks (disk_selection w),
                                        exclusive_disks := SelectedDisks (disk_selection w)\<rparr>\<rparr>"
  have rc: "reload_calls ?w4 = reload_calls w"
    by (rule reload_calls_cong) simp_all
  have st: "storage ?w4 = (storage w)\<lparr>ignored_disks := IgnoredDisks (disk_selection w),
                                        exclusive_disks := SelectedDisks (disk_selection w)\<rparr>"
    by simp
  have tr: "trace ?w4 = trace w @ [Get_property DISK_SELECTION ''IgnoredDisks'',
                                    Get_property DISK_SELECTION ''SelectedDisks'']"
    by simp
  have last: "yields env (and_then (reload_additional_modules env) (\<lambda>_. storage_reset env)) ?w4
       (reload_calls w @
        [Storage_reset ((storage w)\<lparr>ignored_disks := IgnoredDisks (disk_selection w),
                                     exclusive_disks := SelectedDisks (disk_selection w)\<rparr>)])
       (\<lambda>_ w'. raises env
                ((trace w @ [Get_property DISK_SELECTION ''IgnoredDisks'',
                            Get_property DISK_SELECTION ''SelectedDisks'']) @ reload_calls w)
                (Storage_reset ((storage w)\<lparr>ignored_disks := IgnoredDisks (disk_selection w),
                                             exclusive_disks := SelectedDisks (disk_selection w)\<rparr>)) = None)
       (\<lambda>_. True)"
    using reload_then_reset_yields [of env ?w4] unfolding rc st tr .
  show ?thesis
    apply simp
    apply (rule yields_get)
     apply (rule yields_assign)
      apply (rule yields_get)
       apply (rule yields_assign)
        apply (use last in \<open>simp add: record_call_def\<close>)
       apply (simp_all add: record_call_def)
    done
qed

lemma reset_storage_yields:
  "yields env (reset_storage env) w (reset_storage_calls w)
     (\<lambda>_ w'. raises env (trace w @ calls_before_reset w) (Storage_reset (configured_storage w)) = None)
     (\<lambda>_. True)"
proof -
  have "yields env (reset_storage env) w
     (Enter_reset_storage # (config_calls @
        ([Get_property DISK_SELECTION ''IgnoredDisks'', Get_property DISK_SELECTION ''SelectedDisks'']
          @ reload_calls w @ [Storage_reset (configured_storage w)])))
     (\<lambda>_ w'. raises env (trace w @ calls_before_reset w) (Storage_reset (configured_storage w)) = None)
     (\<lambda>_. True)"
    unfolding reset_storage_def
  proof (rule yields_mark, rule yields_seq [OF update_storage_config_yields])
    fix x :: unit and w'
    let ?w0 = "record_call Enter_reset_storage w"
    assume w': "w' = ?w0\<lparr>storage := (storage ?w0)\<lparr>config := (config (storage ?w0))
           \<lparr>clear_part_type := InitializationMode (disk_initialization ?w0),
            clear_part_disks := DrivesToClear (disk_initialization ?w0),
            clear_part_devices := DevicesToClear (disk_initialization ?w0),
            initialize_disks := InitializeLabelsEnabled (disk_initialization ?w0),
            zero_mbr := FormatUnrecognizedEnabled (disk_initialization ?w0)\<rparr>\<rparr>,
            trace := trace ?w0 @ config_calls\<rparr>"
    have rc: "reload_calls w' = reload_calls w"
      by (rule reload_calls_cong) (simp_all add: w' record_call_def)
    have st: "(storage w')\<lparr>ignored_disks := IgnoredDisks (disk_selection w'),
                           exclusive_disks := SelectedDisks (disk_selection w')\<rparr> = configured_storage w"
      by (simp add: w' record_call_def configured_storage_def)
    have tr: "trace w' @ [Get_property DISK_SELECTION ''IgnoredDisks'',
                          Get_property DISK_SELECTION ''SelectedDisks''] @ reload_calls w
              = trace w @ calls_before_reset w"
      by (simp add: w' record_call_def calls_before_reset_def)
    show "yields env
       (and_then (get_property env DISK_SELECTION ''IgnoredDisks'' (\<lambda>w. IgnoredDisks (disk_selection w))) (\<lambda>v.
        and_then (assign (\<lambda>w. w\<lparr>storage := (storage w)\<lparr>ignored_disks := v\<rparr>\<rparr>)) (\<lambda>_.
        and_then (get_property env DISK_SELECTION ''SelectedDisks'' (\<lambda>w. SelectedDisks (disk_selection w))) (\<lambda>v.
        and_then (assign (\<lambda>w. w\<lparr>storage := (storage w)\<lparr>exclusive_disks := v\<rparr>\<rparr>)) (\<lambda>_.
        and_then (reload_additional_modules env) (\<lambda>_. storage_reset env))))))
       w'
       ([Get_property DISK_SELECTION ''IgnoredDisks'', Get_property DISK_SELECTION ''SelectedDisks'']
          @ reload_calls w @ [Storage_reset (configured_storage w)])
       (\<lambda>_ w'. raises env (trace w @ calls_before_reset w) (Storage_reset (configured_storage w)) = None)
       (\<lambda>_. True)"
      using select_then_reset_yields [of env w'] unfolding rc st tr .
  qed
  then show ?thesis
    by (simp add: reset_storage_calls_def calls_before_reset_def)
qed

subsection \<open>select_all_disks_by_default\<close>

lemmas seq_defs = and_then_def assign_def get_property_def call_ext_def record_call_def

text \<open>
  C1. When no service call fails: with an empty selection, the function computes the names
  of the discovered disks that are not ignored, writes that list to the service
  (\<open>SetSelectedDisks\<close>, after which the service holds it) and returns it; with a selection
  that is not empty, it returns that selection, writes nothing and changes nothing but the
  record of its two reads, and a second call does the same again.
\<close>

theorem select_all_disks_by_default_spec:
  assumes quiet: "raises env = no_exception"
  shows "if SelectedDisks (disk_selection w) = [] then
        (let sel = map name (filter (\<lambda>d. name d \<notin> set (IgnoredDisks (disk_selection w))) (disks (storage w))) in
         select_all_disks_by_default env w =
         Return sel
           (w\<lparr>disk_selection := (disk_selection w)\<lparr>SelectedDisks := sel\<rparr>,
              trace := trace w @ [Get_property DISK_SELECTION ''SelectedDisks'',
                                  Get_property DISK_SELECTION ''IgnoredDisks'',
                                  SetSelectedDisks sel,
                                  Log_debug ''Selecting all disks by default: %s'' (join '','' sel)]\<rparr>))
      else
        select_all_disks_by_default env w =
          Return (SelectedDisks (disk_selection w))
            (w\<lparr>trace := trace w @ [Get_property DISK_SELECTION ''SelectedDisks'',
                                   Get_property DISK_SELECTION ''IgnoredDisks'']\<rparr>)
        \<and> select_all_disks_by_default env (world_of (select_all_disks_by_default env w)) =
          Return (SelectedDisks (disk_selection w))
            (w\<lparr>trace := trace w @ [Get_property DISK_SELECTION ''SelectedDisks'',
                                   Get_property DISK_SELECTION ''IgnoredDisks'',
                                   Get_property DISK_SELECTION ''SelectedDisks'',
                                   Get_property DISK_SELECTION ''IgnoredDisks'']\<rparr>)"
  using quiet
  by (simp add: select_all_disks_by_default_def set_selected_disks_def seq_defs no_exception_def Let_def)

theorem select_all_disks_by_default_spec_witness:
  "raises quiet_env = no_exception
   \<and> select_all_disks_by_default quiet_env example_world =
       Return [''sda'', ''sdc'']
         (example_world\<lparr>disk_selection := \<lparr> SelectedDisks = [''sda'', ''sdc''], IgnoredDisks = [''sdb''] \<rparr>,
            trace := [Get_property DISK_SELECTION ''SelectedDisks'',
                      Get_property DISK_SELECTION ''IgnoredDisks'',
                      SetSelectedDisks [''sda'', ''sdc''],
                      Log_debug ''Selecting all disks by default: %s'' ''sda,sdc'']\<rparr>)
   \<and> select_all_disks_by_default quiet_env selected_world =
       Return [''sda'', ''sdb'']
         (selected_world\<lparr>trace := [Get_property DISK_SELECTION ''SelectedDisks'',
                                    Get_property DISK_SELECTION ''IgnoredDisks'']\<rparr>)"
proof -
  have q: "raises quiet_env = no_exception" by (simp add: quiet_env_def)
  show ?thesis
    using q select_all_disks_by_default_spec [OF q, of example_world]
      select_all_disks_by_default_spec [OF q, of selected_world]
    by (simp add: example_world_def selected_world_def example_storage_def disk_def Let_def)
qed

text \<open>
  C9. A selection that is not empty is returned as it is, whatever the ignored-disk list
  holds: in every environment the value returned is the stored selection, the service
  keeps its state, and nothing is written; when no call fails the function does return.
  The filter on ignored disks is in the other branch only.
\<close>

theorem existing_selection_returned_verbatim:
  assumes "SelectedDisks (disk_selection w) \<noteq> []"
  shows "(\<forall>r w'. select_all_disks_by_default env w = Return r w' \<longrightarrow> r = SelectedDisks (disk_selection w))
       \<and> disk_selection (world_of (select_all_disks_by_default env w)) = disk_selection w
       \<and> (\<forall>xs. SetSelectedDisks xs \<notin> set (new_calls w (world_of (select_all_disks_by_default env w))))
       \<and> (raises env = no_exception \<longrightarrow> is_Return (select_all_disks_by_default env w))"
  using assms
  by (auto simp: select_all_disks_by_default_def seq_defs no_exception_def new_calls_def
           split: option.splits)

theorem existing_selection_returned_verbatim_witness:
  "SelectedDisks (disk_selection selected_world) \<noteq> []
   \<and> ''sdb'' \<in> set (IgnoredDisks (disk_selection selected_world))
   \<and> (\<exists>w'. select_all_disks_by_default quiet_env selected_world = Return [''sda'', ''sdb''] w')"
proof -
  have ne: "SelectedDisks (disk_selection selected_world) \<noteq> []"
    by (simp add: selected_world_def)
  have q: "raises quiet_env = no_exception" by (simp add: quiet_env_def)
  from existing_selection_returned_verbatim [OF ne, of quiet_env] q
  obtain r w' where "select_all_disks_by_default quiet_env selected_world = Return r w'"
    and "r = SelectedDisks (disk_selection selected_world)"
    by (cases "select_all_disks_by_default quiet_env selected_world") auto
  then show ?thesis
    by (simp add: selected_world_def)
qed

subsection \<open>set_storage_defaults_from_kickstart\<close>

text \<open>
  C4. When no call fails: if automatic partitioning is enabled and names a filesystem type,
  both the default and the default-boot filesystem type of the storage model become that
  type; otherwise the function only reads. And in every environment, with automatic
  partitioning disabled or no type named, the storage model is left as it was.
\<close>

theorem set_storage_defaults_from_kickstart_spec:
  "(raises env = no_exception \<longrightarrow>
      set_storage_defaults_from_kickstart env w =
       (if Enabled (auto_partitioning w) \<and> FilesystemType (auto_partitioning w) \<noteq> [] then
          Return ()
            (w\<lparr>storage := (storage w)\<lparr>default_fstype := FilesystemType (auto_partitioning w),
                                        default_boot_fstype := FilesystemType (auto_partitioning w)\<rparr>,
               trace := trace w @ [Get_property AUTO_PARTITIONING ''FilesystemType'',
                                   Get_property AUTO_PARTITIONING ''Enabled'',
                                   Set_default_fstype (FilesystemType (auto_partitioning w)),
                                   Set_default_boot_fstype (FilesystemType (auto_partitioning w))]\<rparr>)
        else
          Return ()
            (w\<lparr>trace := trace w @ [Get_property AUTO_PARTITIONING ''FilesystemType'',
                                   Get_property AUTO_PARTITIONING ''Enabled'']\<rparr>)))
   \<and> (\<not> Enabled (auto_partitioning w) \<or> FilesystemType (auto_partitioning w) = [] \<longrightarrow>
        storage (world_of (set_storage_defaults_from_kickstart env w)) = storage w)"
  by (auto simp: set_storage_defaults_from_kickstart_def set_default_fstype_def
        set_default_boot_fstype_def seq_defs no_exception_def split: option.splits)

theorem set_storage_defaults_from_kickstart_spec_witness:
  "raises quiet_env = no_exception
   \<and> default_fstype (storage example_world) = ''xfs''
   \<and> default_fstype (storage (world_of (set_storage_defaults_from_kickstart quiet_env example_world))) = ''ext4''
   \<and> default_boot_fstype (storage (world_of (set_storage_defaults_from_kickstart quiet_env example_world))) = ''ext4''
   \<and> \<not> Enabled (auto_partitioning disabled_world)
   \<and> storage (world_of (set_storage_defaults_from_kickstart quiet_env disabled_world)) = storage disabled_world"
proof -
  have q: "raises quiet_env = no_exception" by (simp add: quiet_env_def)
  show ?thesis
    using q set_storage_defaults_from_kickstart_spec [of quiet_env example_world]
      set_storage_defaults_from_kickstart_spec [of quiet_env disabled_world]
    by (simp add: example_world_def disabled_world_def example_storage_def)
qed

subsection \<open>reset_storage\<close>

lemma prefix_snoc_mem:
  assumes "prefix xs (ys @ [z])" and "x \<in> set xs" and "x \<notin> set ys"
  shows "xs = ys @ [z] \<and> x = z"
proof -
  from assms(1) have "xs = ys @ [z] \<or> prefix xs ys" by (simp add: prefix_snoc)
  moreover have "\<not> prefix xs ys"
    using assms(2,3) set_mono_prefix by fastforce
  ultimately show ?thesis using assms(2,3) by auto
qed

lemma no_reset_before_reset:
  "Storage_reset s \<notin> set (calls_before_reset w)"
  by (simp add: calls_before_reset_def config_calls_def reload_calls_def)

lemma reset_storage_reaches_reset:
  assumes "Storage_reset s \<in> set (new_calls w (world_of (reset_storage env w)))"
  shows "new_calls w (world_of (reset_storage env w)) = reset_storage_calls w"
    and "s = configured_storage w"
proof -
  have p: "prefix (new_calls w (world_of (reset_storage env w))) (reset_storage_calls w)"
    by (rule yields_new_calls(2) [OF reset_storage_yields])
  from prefix_snoc_mem [OF p [unfolded reset_storage_calls_def] assms no_reset_before_reset]
  show "new_calls w (world_of (reset_storage env w)) = reset_storage_calls w"
    and "s = configured_storage w"
    by (simp_all add: reset_storage_calls_def calls_before_reset_def)
qed

text \<open>
  C5. The calls of one \<open>reset_storage\<close>, in every environment. On an image target none of
  the iSCSI restart, the FCoE module reload and the zFCP module reload is made. On a target
  that is not an image, on an architecture that is not s390, the zFCP reload is not made,
  and a run that gets as far as the reset primitive has made the iSCSI restart and the
  FCoE reload, once each.
\<close>

theorem reset_storage_reloads_modules:
  "(target_is_image (conf w) \<longrightarrow>
      Iscsi_startup \<notin> set (new_calls w (world_of (reset_storage env w)))
    \<and> ReloadModule FCOE \<notin> set (new_calls w (world_of (reset_storage env w)))
    \<and> ReloadModule ZFCP \<notin> set (new_calls w (world_of (reset_storage env w))))
 \<and> (\<not> target_is_image (conf w) \<and> \<not> arch_is_s390 w \<longrightarrow>
      ReloadModule ZFCP \<notin> set (new_calls w (world_of (reset_storage env w)))
    \<and> (Storage_reset s \<in> set (new_calls w (world_of (reset_storage env w))) \<longrightarrow>
          count_list (new_calls w (world_of (reset_storage env w))) Iscsi_startup = 1
        \<and> count_list (new_calls w (world_of (reset_storage env w))) (ReloadModule FCOE) = 1))"
proof -
  let ?nc = "new_calls w (world_of (reset_storage env w))"
  have sub: "set ?nc \<subseteq> set (reset_storage_calls w)"
    by (rule set_mono_prefix) (rule yields_new_calls(2) [OF reset_storage_yields])
  have image: "target_is_image (conf w) \<Longrightarrow>
      Iscsi_startup \<notin> set (reset_storage_calls w) \<and> ReloadModule FCOE \<notin> set (reset_storage_calls w)
      \<and> ReloadModule ZFCP \<notin> set (reset_storage_calls w)"
    by (simp add: reset_storage_calls_def calls_before_reset_def config_calls_def reload_calls_def)
  have other: "\<not> target_is_image (conf w) \<Longrightarrow> \<not> arch_is_s390 w \<Longrightarrow>
      ReloadModule ZFCP \<notin> set (reset_storage_calls w)
      \<and> count_list (reset_storage_calls w) Iscsi_startup = 1
      \<and> count_list (reset_storage_calls w) (ReloadModule FCOE) = 1"
    by (simp add: reset_storage_calls_def calls_before_reset_def config_calls_def reload_calls_def)
  show ?thesis
    using sub image other reset_storage_reaches_reset(1) [where s=s and w=w and env=env] by auto
qed

lemma is_Return_and_then:
  assumes "\<And>w. is_Return (m w)" and "\<And>x w. is_Return (f x w)"
  shows "is_Return (and_then m f w)"
  using assms(1) [of w] assms(2) by (cases "m w") (simp_all add: and_then_def)

lemma is_Return_call_ext:
  "raises env = no_exception \<Longrightarrow> is_Return (call_ext env c w)"
  by (simp add: call_ext_quiet)

lemma is_Return_get_property:
  "raises env = no_exception \<Longrightarrow> is_Return (get_property env obj p sel w)"
  by (simp add: get_property_quiet)

lemma is_Return_assign: "is_Return (assign g w)"
  by (simp add: assign_def)

lemma reset_storage_quiet:
  assumes "raises env = no_exception"
  shows "is_Return (reset_storage env w)"
proof -
  have 1: "is_Return (update_storage_config env w)" for w
    unfolding update_storage_config_def
    by (intro is_Return_and_then is_Return_get_property is_Return_assign assms)
  have 2: "is_Return (reload_additional_modules env w)" for w
    by (simp add: reload_additional_modules_def and_then_def call_ext_quiet [OF assms])
  have 3: "is_Return (storage_reset env w)" for w
    by (simp add: storage_reset_def call_ext_quiet [OF assms] Let_def)
  show ?thesis
    unfolding reset_storage_def
    by (intro is_Return_and_then is_Return_get_property is_Return_assign assms 1 2 3)
qed

theorem reset_storage_reloads_modules_witness:
  "\<not> target_is_image (conf example_world) \<and> \<not> arch_is_s390 example_world
   \<and> Storage_reset (configured_storage example_world)
       \<in> set (new_calls example_world (world_of (reset_storage quiet_env example_world)))
   \<and> count_list (new_calls example_world (world_of (reset_storage quiet_env example_world))) Iscsi_startup = 1
   \<and> count_list (new_calls example_world (world_of (reset_storage quiet_env example_world))) (ReloadModule FCOE) = 1
   \<and> ReloadModule ZFCP \<notin> set (new_calls example_world (world_of (reset_storage quiet_env example_world)))
   \<and> target_is_image (conf image_world)
   \<and> Iscsi_startup \<notin> set (new_calls image_world (world_of (reset_storage quiet_env image_world)))
   \<and> ReloadModule FCOE \<notin> set (new_calls image_world (world_of (reset_storage quiet_env image_world)))
   \<and> ReloadModule ZFCP \<notin> set (new_calls image_world (world_of (reset_storage quiet_env image_world)))"
proof -
  have r: "is_Return (reset_storage quiet_env example_world)"
    by (rule reset_storage_quiet) (simp add: quiet_env_def)
  have nc: "new_calls example_world (world_of (reset_storage quiet_env example_world)) = reset_storage_calls example_world"
    by (rule yields_new_calls(3) [OF reset_storage_yields r])
  have a: "\<not> target_is_image (conf example_world) \<and> \<not> arch_is_s390 example_world"
    by (simp add: example_world_def)
  have b: "Storage_reset (configured_storage example_world)
       \<in> set (new_calls example_world (world_of (reset_storage quiet_env example_world)))"
    unfolding nc by (simp add: reset_storage_calls_def calls_before_reset_def)
  have c: "target_is_image (conf image_world)"
    by (simp add: image_world_def)
  from reset_storage_reloads_modules [where w=example_world and env=quiet_env and s="configured_storage example_world"]
    reset_storage_reloads_modules [where w=image_world and env=quiet_env and s="configured_storage image_world"]
    a b c
  show ?thesis by simp
qed

text \<open>
  C6. Whenever \<open>reset_storage\<close> calls the reset primitive, in every environment: the storage
  model the primitive receives is the one \<open>reset_storage\<close> started with, changed in exactly
  the five fields of its configuration, set from the disk-initialization service, and in
  its ignored and exclusive disk lists, set from the disk-selection service; and the calls
  made are the five reads of the disk-initialization service, then the two reads of the
  disk-selection service, then the module reloads, then the primitive, last.
\<close>

theorem reset_storage_configures_before_reset:
  assumes "Storage_reset s \<in> set (new_calls w (world_of (reset_storage env w)))"
  shows "s = (storage w)
           \<lparr>config := (config (storage w))
              \<lparr>clear_part_type := InitializationMode (disk_initialization w),
               clear_part_disks := DrivesToClear (disk_initialization w),
               clear_part_devices := DevicesToClear (disk_initialization w),
               initialize_disks := InitializeLabelsEnabled (disk_initialization w),
               zero_mbr := FormatUnrecognizedEnabled (disk_initialization w)\<rparr>,
            ignored_disks := IgnoredDisks (disk_selection w),
            exclusive_disks := SelectedDisks (disk_selection w)\<rparr>
       \<and> new_calls w (world_of (reset_storage env w)) =
           [Enter_reset_storage,
            Get_property DISK_INITIALIZATION ''InitializationMode'',
            Get_property DISK_INITIALIZATION ''DrivesToClear'',
            Get_property DISK_INITIALIZATION ''DevicesToClear'',
            Get_property DISK_INITIALIZATION ''InitializeLabelsEnabled'',
            Get_property DISK_INITIALIZATION ''FormatUnrecognizedEnabled'',
            Get_property DISK_SELECTION ''IgnoredDisks'',
            Get_property DISK_SELECTION ''SelectedDisks'']
           @ reload_calls w @ [Storage_reset s]"
  using reset_storage_reaches_reset [OF assms]
  by (simp add: reset_storage_calls_def calls_before_reset_def config_calls_def configured_storage_def)

theorem reset_storage_configures_before_reset_witness:
  "Storage_reset (configured_storage example_world)
     \<in> set (new_calls example_world (world_of (reset_storage quiet_env example_world)))
   \<and> config (configured_storage example_world) =
       \<lparr> clear_part_type = 1, clear_part_disks = [''sda''], clear_part_devices = [''sda1''],
         initialize_disks = True, zero_mbr = True \<rparr>
   \<and> ignored_disks (configured_storage example_world) = [''sdb'']
   \<and> exclusive_disks (configured_storage example_world) = []
   \<and> new_calls example_world (world_of (reset_storage quiet_env example_world)) =
           [Enter_reset_storage,
            Get_property DISK_INITIALIZATION ''InitializationMode'',
            Get_property DISK_INITIALIZATION ''DrivesToClear'',
            Get_property DISK_INITIALIZATION ''DevicesToClear'',
            Get_property DISK_INITIALIZATION ''InitializeLabelsEnabled'',
            Get_property DISK_INITIALIZATION ''FormatUnrecognizedEnabled'',
            Get_property DISK_SELECTION ''IgnoredDisks'',
            Get_property DISK_SELECTION ''SelectedDisks'',
            Iscsi_startup, ReloadModule FCOE,
            Storage_reset (configured_storage example_world)]"
proof -
  have r: "is_Return (reset_storage quiet_env example_world)"
    by (rule reset_storage_quiet) (simp add: quiet_env_def)
  have b: "Storage_reset (configured_storage example_world)
       \<in> set (new_calls example_world (world_of (reset_storage quiet_env example_world)))"
    unfolding yields_new_calls(3) [OF reset_storage_yields r] by (simp add: reset_storage_calls_def calls_before_reset_def)
  have c: "reload_calls example_world = [Iscsi_startup, ReloadModule FCOE]"
    by (simp add: reload_calls_def example_world_def)
  from reset_storage_configures_before_reset [OF b] b c
  show ?thesis
    by (simp add: configured_storage_def example_world_def example_storage_def)
qed

subsection \<open>initialize_storage\<close>

lemma reset_storage_trace:
  "\<exists>cs. trace (world_of (reset_storage env w)) = trace w @ Enter_reset_storage # cs
       \<and> Enter_reset_storage \<notin> set cs \<and> Storage_shutdown \<notin> set cs
       \<and> (\<forall>e. Error_handler_cb e \<notin> set cs)"
proof -
  let ?nc = "new_calls w (world_of (reset_storage env w))"
  have "yields env (reset_storage env) w (reset_storage_calls w)
     (\<lambda>_ w'. raises env (trace w @ calls_before_reset w) (Storage_reset (configured_storage w)) = None)
     (\<lambda>_. True)"
    by (rule reset_storage_yields)
  note y = yields_new_calls [OF this]
  have "reset_storage_calls w \<noteq> []" by (simp add: reset_storage_calls_def calls_before_reset_def)
  then have ne: "?nc \<noteq> []" by (rule y(4))
  then obtain c cs where nc: "?nc = c # cs" by (cases ?nc) auto
  with y(2) have c: "c = Enter_reset_storage" and p: "prefix cs (tl (reset_storage_calls w))"
    by (simp_all add: reset_storage_calls_def calls_before_reset_def)
  have "set cs \<subseteq> set (tl (reset_storage_calls w))" using p by (rule set_mono_prefix)
  moreover have "Enter_reset_storage \<notin> set (tl (reset_storage_calls w))"
    "Storage_shutdown \<notin> set (tl (reset_storage_calls w))"
    "\<And>e. Error_handler_cb e \<notin> set (tl (reset_storage_calls w))"
    by (simp_all add: reset_storage_calls_def calls_before_reset_def config_calls_def reload_calls_def)
  ultimately show ?thesis using y(1) nc c by auto
qed

lemma error_handler_cb_world:
  "world_of (error_handler_cb env e w) = record_call (Error_handler_cb e) w"
  by (simp add: error_handler_cb_def and_then_def call_ext_def split: option.splits)

lemma storage_shutdown_trace:
  "trace (world_of (storage_shutdown env w)) = trace w @ [Storage_shutdown]"
  by (simp add: storage_shutdown_def call_ext_def record_call_def split: option.splits)

lemma reset_loop_trace:
  "\<exists>cs. trace (run_world (reset_loop n env w)) = trace w @ cs \<and> Storage_shutdown \<notin> set cs"
proof (induction n arbitrary: w)
  case 0
  show ?case by simp
next
  case (Suc n)
  obtain cs where cs: "trace (world_of (reset_storage env w)) = trace w @ Enter_reset_storage # cs"
    and ns: "Storage_shutdown \<notin> set cs"
    using reset_storage_trace [of env w] by blast
  show ?case
  proof (cases "reset_storage env w")
    case (Return x w')
    with cs ns show ?thesis by simp
  next
    case (Raise e w')
    note r = this
    show ?thesis
    proof (cases "is_StorageError e")
      case False
      with r cs ns show ?thesis by simp
    next
      case True
      have h: "world_of (error_handler_cb env e w') = record_call (Error_handler_cb e) w'"
        by (rule error_handler_cb_world)
      show ?thesis
      proof (cases "error_handler_cb env e w'")
        case (Raise e' w'')
        with h r cs ns True show ?thesis by (simp add: record_call_def)
      next
        case (Return d w'')
        with h have t: "trace w'' = trace w @ Enter_reset_storage # cs @ [Error_handler_cb e]"
          using r cs by (simp add: record_call_def)
        show ?thesis
        proof (cases "d = ERROR_RAISE")
          case True
          with Return r t ns \<open>is_StorageError e\<close> show ?thesis by simp
        next
          case False
          from Suc.IH [of w''] obtain cs' where
            "trace (run_world (reset_loop n env w'')) = trace w'' @ cs'" "Storage_shutdown \<notin> set cs'"
            by blast
          with False Return r t ns \<open>is_StorageError e\<close> show ?thesis by simp
        qed
      qed
    qed
  qed
qed

text \<open>
  C10. In every environment and for every number of attempts, finished or not, the calls of
  \<open>initialize_storage\<close> begin with the shutdown of the storage model, and no later call is
  a shutdown: it is made once, before the first \<open>reset_storage\<close>, and no retry repeats it.
\<close>

theorem shutdown_once_before_resets:
  "\<exists>rest. new_calls w (run_world (initialize_storage n env w)) = Storage_shutdown # rest
         \<and> Storage_shutdown \<notin> set rest"
proof (cases "storage_shutdown env w")
  case (Raise e w')
  with storage_shutdown_trace [of env w] show ?thesis
    by (simp add: initialize_storage_def new_calls_def)
next
  case (Return x w')
  with storage_shutdown_trace [of env w] have t: "trace w' = trace w @ [Storage_shutdown]" by simp
  from reset_loop_trace [of n env w'] obtain cs where
    "trace (run_world (reset_loop n env w')) = trace w' @ cs" "Storage_shutdown \<notin> set cs"
    by blast
  with t Return show ?thesis
    by (simp add: initialize_storage_def new_calls_def)
qed

theorem shutdown_once_before_resets_witness:
  "count_list (new_calls example_world
      (run_world (initialize_storage 3 (failing_env 2 ERROR_CONTINUE) example_world))) Storage_shutdown = 1
   \<and> hd (new_calls example_world
      (run_world (initialize_storage 3 (failing_env 2 ERROR_CONTINUE) example_world))) = Storage_shutdown"
proof -
  from shutdown_once_before_resets [of example_world 3 "failing_env 2 ERROR_CONTINUE"]
  obtain rest where
    "new_calls example_world (run_world (initialize_storage 3 (failing_env 2 ERROR_CONTINUE) example_world))
       = Storage_shutdown # rest" and "Storage_shutdown \<notin> set rest"
    by blast
  then show ?thesis
    by (simp add: count_list_0_iff)
qed

lemma reset_storage_count:
  assumes "world_of (reset_storage env w) = w'"
  shows "\<exists>cs. trace w' = trace w @ cs \<and> count_list cs Enter_reset_storage = 1
           \<and> (\<forall>e. Error_handler_cb e \<notin> set cs)"
proof -
  from reset_storage_trace [of env w] assms obtain cs where
    "trace w' = trace w @ Enter_reset_storage # cs" "Enter_reset_storage \<notin> set cs"
    "\<forall>e. Error_handler_cb e \<notin> set cs"
    by auto
  then have "trace w' = trace w @ (Enter_reset_storage # cs)
      \<and> count_list (Enter_reset_storage # cs) Enter_reset_storage = 1
      \<and> (\<forall>e. Error_handler_cb e \<notin> set (Enter_reset_storage # cs))"
    by (simp add: count_list_0_iff)
  then show ?thesis by blast
qed

lemma error_handler_cb_trace:
  assumes "error_handler_cb env e w = Return d w'"
  shows "trace w' = trace w @ [Error_handler_cb e]"
  using error_handler_cb_world [of env e w] assms by (simp add: record_call_def)

lemma storage_shutdown_Return_trace:
  assumes "storage_shutdown env w = Return x w'"
  shows "trace w' = trace w @ [Storage_shutdown]"
  using storage_shutdown_trace [of env w] assms by simp


text \<open>Environments in which only the reset primitive can fail.\<close>

lemma no_reset_in_calls_before_reset:
  "c \<in> set (calls_before_reset w) \<Longrightarrow> \<not> is_reset c"
  by (auto simp: calls_before_reset_def config_calls_def reload_calls_def split: if_splits)

lemma filter_is_reset_calls_before_reset:
  "filter is_reset (calls_before_reset w) = []"
  by (simp add: filter_empty_conv no_reset_in_calls_before_reset)

lemma reset_storage_outcome:
  assumes only: "\<And>h c. \<not> is_reset c \<Longrightarrow> raises env h c = None"
  shows "raises env (trace w @ calls_before_reset w) (Storage_reset (configured_storage w)) = None \<Longrightarrow>
           \<exists>w'. reset_storage env w = Return () w' \<and> trace w' = trace w @ reset_storage_calls w"
    and "raises env (trace w @ calls_before_reset w) (Storage_reset (configured_storage w)) = Some e \<Longrightarrow>
           \<exists>w'. reset_storage env w = Raise e w' \<and> trace w' = trace w @ reset_storage_calls w"
proof -
  let ?h = "trace w @ calls_before_reset w" and ?c = "Storage_reset (configured_storage w)"
  have y: "yields env (reset_storage env) w (reset_storage_calls w)
     (\<lambda>_ w'. raises env ?h ?c = None) (\<lambda>_. True)"
    by (rule reset_storage_yields)
  have raise: "raises env ?h ?c = Some e' \<and> trace w' = trace w @ reset_storage_calls w"
    if r: "reset_storage env w = Raise e' w'" for e' w'
  proof -
    from yields_Raise [OF y r] obtain cs' c' where p: "prefix (cs' @ [c']) (calls_before_reset w @ [?c])"
      and t: "trace w' = trace w @ cs' @ [c']" and a: "raises env (trace w @ cs') c' = Some e'"
      by (auto simp: reset_storage_calls_def)
    from a only have "is_reset c'" by fastforce
    then have "c' \<notin> set (calls_before_reset w)"
      using no_reset_in_calls_before_reset by blast
    from prefix_snoc_mem [OF p _ this] have "cs' @ [c'] = calls_before_reset w @ [?c]" by simp
    then have "cs' = calls_before_reset w" "c' = ?c" by simp_all
    with t a show ?thesis by (simp add: reset_storage_calls_def)
  qed
  show "\<exists>w'. reset_storage env w = Return () w' \<and> trace w' = trace w @ reset_storage_calls w"
    if "raises env ?h ?c = None"
  proof (cases "reset_storage env w")
    case (Return x w')
    with yields_Return [OF y Return] show ?thesis by simp
  next
    case (Raise e' w')
    with raise [OF Raise] that show ?thesis by simp
  qed
  show "\<exists>w'. reset_storage env w = Raise e w' \<and> trace w' = trace w @ reset_storage_calls w"
    if "raises env ?h ?c = Some e"
  proof (cases "reset_storage env w")
    case (Return x w')
    with yields_Return [OF y Return] that show ?thesis by simp
  next
    case (Raise e' w')
    with raise [OF Raise] that show ?thesis by simp
  qed
qed

lemma failing_env_reset_fails:
  assumes "length (filter is_reset (trace w)) < k"
  shows "\<exists>w'. reset_storage (failing_env k d) w = Raise (StorageError ''reset failed'') w'
             \<and> length (filter is_reset (trace w')) = Suc (length (filter is_reset (trace w)))"
proof -
  have only: "\<And>h c. \<not> is_reset c \<Longrightarrow> raises (failing_env k d) h c = None"
    by (simp add: failing_env_def failing_resets_def)
  have "raises (failing_env k d) (trace w @ calls_before_reset w) (Storage_reset (configured_storage w))
          = Some (StorageError ''reset failed'')"
    using assms by (simp add: failing_env_def failing_resets_def filter_is_reset_calls_before_reset)
  from reset_storage_outcome(2) [OF only this] show ?thesis
    by (auto simp: reset_storage_calls_def filter_is_reset_calls_before_reset)
qed

lemma failing_env_reset_succeeds:
  assumes "\<not> length (filter is_reset (trace w)) < k"
  shows "\<exists>w'. reset_storage (failing_env k d) w = Return () w'"
proof -
  have only: "\<And>h c. \<not> is_reset c \<Longrightarrow> raises (failing_env k d) h c = None"
    by (simp add: failing_env_def failing_resets_def)
  have "raises (failing_env k d) (trace w @ calls_before_reset w) (Storage_reset (configured_storage w)) = None"
    using assms by (simp add: failing_env_def failing_resets_def filter_is_reset_calls_before_reset)
  from reset_storage_outcome(1) [OF only this] show ?thesis by blast
qed

lemma failing_env_handler:
  "error_handler_cb (failing_env k d) e w = Return d (record_call (Error_handler_cb e) w)"
  by (simp add: error_handler_cb_def and_then_def call_ext_def failing_env_def failing_resets_def)

lemma failing_env_shutdown:
  "storage_shutdown (failing_env k d) w = Return () (record_call Storage_shutdown w)"
  by (simp add: storage_shutdown_def call_ext_def failing_env_def failing_resets_def record_call_def)




text \<open>
  C2. If the shutdown returns, \<open>reset_storage\<close> raises a storage error on its first and on
  its second invocation, the error handler answers \<open>ERROR_CONTINUE\<close> both times, and the
  third invocation returns, then \<open>initialize_storage\<close>, given at least three attempts,
  finishes by returning, with no exception, in the world the third invocation left; and
  \<open>reset_storage\<close> was entered exactly three times.
\<close>

theorem retry_twice_then_succeed:
  assumes shutdown: "storage_shutdown env w = Return () w0"
    and first: "reset_storage env w0 = Raise e1 w1" "is_StorageError e1"
      "error_handler_cb env e1 w1 = Return ERROR_CONTINUE w1'"
    and second: "reset_storage env w1' = Raise e2 w2" "is_StorageError e2"
      "error_handler_cb env e2 w2 = Return ERROR_CONTINUE w2'"
    and third: "reset_storage env w2' = Return () w3"
    and fuel: "3 \<le> n"
  shows "initialize_storage n env w = Finished (Return () w3)
       \<and> count_list (new_calls w w3) Enter_reset_storage = 3"
proof -
  from fuel obtain m where n: "n = Suc (Suc (Suc m))"
    by (metis Suc_le_D numeral_3_eq_3 Suc_le_mono)
  have run: "initialize_storage n env w = Finished (Return () w3)"
    using shutdown first second third by (simp add: initialize_storage_def n)
  from reset_storage_count [of env w0 w1] first(1) obtain cs1 where
    1: "trace w1 = trace w0 @ cs1" "count_list cs1 Enter_reset_storage = 1" by auto
  from reset_storage_count [of env w1' w2] second(1) obtain cs2 where
    2: "trace w2 = trace w1' @ cs2" "count_list cs2 Enter_reset_storage = 1" by auto
  from reset_storage_count [of env w2' w3] third obtain cs3 where
    3: "trace w3 = trace w2' @ cs3" "count_list cs3 Enter_reset_storage = 1" by auto
  have "trace w3 = trace w @ ([Storage_shutdown] @ cs1 @ [Error_handler_cb e1] @ cs2 @ [Error_handler_cb e2] @ cs3)"
    using 1(1) 2(1) 3(1) storage_shutdown_Return_trace [OF shutdown]
      error_handler_cb_trace [OF first(3)] error_handler_cb_trace [OF second(3)]
    by simp
  then have "new_calls w w3 = [Storage_shutdown] @ cs1 @ [Error_handler_cb e1] @ cs2 @ [Error_handler_cb e2] @ cs3"
    by (simp add: new_calls_def)
  then have "count_list (new_calls w w3) Enter_reset_storage = 3"
    using 1(2) 2(2) 3(2) by simp
  with run show ?thesis by simp
qed


theorem retry_twice_then_succeed_witness:
  "\<exists>w3. initialize_storage 3 (failing_env 2 ERROR_CONTINUE) example_world = Finished (Return () w3)
       \<and> count_list (new_calls example_world w3) Enter_reset_storage = 3"
proof -
  let ?E = "failing_env 2 ERROR_CONTINUE"
  let ?w0 = "record_call Storage_shutdown example_world"
  have s: "storage_shutdown ?E example_world = Return () ?w0"
    by (rule failing_env_shutdown)
  have "length (filter is_reset (trace ?w0)) < 2"
    by (simp add: record_call_def example_world_def)
  from failing_env_reset_fails [OF this, of ERROR_CONTINUE] obtain w1 where
    r1: "reset_storage ?E ?w0 = Raise (StorageError ''reset failed'') w1"
    and c1: "length (filter is_reset (trace w1)) = 1"
    by (auto simp: record_call_def example_world_def)
  let ?w1' = "record_call (Error_handler_cb (StorageError ''reset failed'')) w1"
  have h1: "error_handler_cb ?E (StorageError ''reset failed'') w1 = Return ERROR_CONTINUE ?w1'"
    by (rule failing_env_handler)
  have "length (filter is_reset (trace ?w1')) < 2"
    using c1 by (simp add: record_call_def)
  from failing_env_reset_fails [OF this, of ERROR_CONTINUE] obtain w2 where
    r2: "reset_storage ?E ?w1' = Raise (StorageError ''reset failed'') w2"
    and c2: "length (filter is_reset (trace w2)) = 2"
    using c1 by (auto simp: record_call_def)
  let ?w2' = "record_call (Error_handler_cb (StorageError ''reset failed'')) w2"
  have h2: "error_handler_cb ?E (StorageError ''reset failed'') w2 = Return ERROR_CONTINUE ?w2'"
    by (rule failing_env_handler)
  have "\<not> length (filter is_reset (trace ?w2')) < 2"
    using c2 by (simp add: record_call_def)
  from failing_env_reset_succeeds [OF this, of ERROR_CONTINUE] obtain w3 where
    r3: "reset_storage ?E ?w2' = Return () w3"
    by blast
  from retry_twice_then_succeed [OF s r1 _ h1 r2 _ h2 r3, of 3] show ?thesis
    by auto
qed


text \<open>
  C3. If the shutdown returns, the first invocation of \<open>reset_storage\<close> raises a storage
  error and the error handler answers \<open>ERROR_RAISE\<close>, then \<open>initialize_storage\<close> finishes by
  raising that same error, and \<open>reset_storage\<close> was entered exactly once.
\<close>

theorem raise_directive_propagates:
  assumes shutdown: "storage_shutdown env w = Return () w0"
    and first: "reset_storage env w0 = Raise e w1" "is_StorageError e"
      "error_handler_cb env e w1 = Return ERROR_RAISE w1'"
    and fuel: "0 < n"
  shows "initialize_storage n env w = Finished (Raise e w1')
       \<and> count_list (new_calls w w1') Enter_reset_storage = 1"
proof -
  from fuel obtain m where n: "n = Suc m" by (cases n) auto
  have run: "initialize_storage n env w = Finished (Raise e w1')"
    using shutdown first by (simp add: initialize_storage_def n)
  from reset_storage_count [of env w0 w1] first(1) obtain cs1 where
    1: "trace w1 = trace w0 @ cs1" "count_list cs1 Enter_reset_storage = 1" by auto
  have "trace w1' = trace w @ ([Storage_shutdown] @ cs1 @ [Error_handler_cb e])"
    using 1(1) storage_shutdown_Return_trace [OF shutdown] error_handler_cb_trace [OF first(3)]
    by simp
  then have "new_calls w w1' = [Storage_shutdown] @ cs1 @ [Error_handler_cb e]"
    by (simp add: new_calls_def)
  then have "count_list (new_calls w w1') Enter_reset_storage = 1"
    using 1(2) by simp
  with run show ?thesis by simp
qed


theorem raise_directive_propagates_witness:
  "\<exists>w1. initialize_storage 1 (failing_env 1 ERROR_RAISE) example_world
            = Finished (Raise (StorageError ''reset failed'') w1)
       \<and> count_list (new_calls example_world w1) Enter_reset_storage = 1"
proof -
  let ?E = "failing_env 1 ERROR_RAISE"
  let ?w0 = "record_call Storage_shutdown example_world"
  have s: "storage_shutdown ?E example_world = Return () ?w0"
    by (rule failing_env_shutdown)
  have "length (filter is_reset (trace ?w0)) < 1"
    by (simp add: record_call_def example_world_def)
  from failing_env_reset_fails [OF this, of ERROR_RAISE] obtain w1 where
    r1: "reset_storage ?E ?w0 = Raise (StorageError ''reset failed'') w1"
    by auto
  let ?w1' = "record_call (Error_handler_cb (StorageError ''reset failed'')) w1"
  have h1: "error_handler_cb ?E (StorageError ''reset failed'') w1 = Return ERROR_RAISE ?w1'"
    by (rule failing_env_handler)
  from raise_directive_propagates [OF s r1 _ h1, of 1] show ?thesis
    by auto
qed




subsection \<open>enable_installer_mode\<close>

lemma and_then_assign: "and_then (assign g) f w = f () (g w)"
  by (simp add: and_then_def assign_def)

lemma and_then_cond_assign:
  "and_then (\<lambda>w. if b w then assign g w else Return () w) f w = f () (if b w then g w else w)"
  by (simp add: and_then_def assign_def)

lemma enable_installer_mode_assignments:
  "enable_installer_mode env w =
     and_then (\<lambda>w. call_ext env (Platform_update_from_flags (blivet_flags w)) w) (\<lambda>_.
     and_then (\<lambda>w. if arch_is_s390 w then load_plugin_s390 env w else Return () w) (\<lambda>_.
     and_then (assign (\<lambda>w. w\<lparr>device_name_blacklist := [''^mtd'', ''^mmcblk.+boot'', ''^mmcblk.+rpmb'', ''^zram'', ''^ndblk'']\<rparr>)) (\<lambda>_.
     call_ext env (Udev_trigger ''block'' ''change''))))
     (w\<lparr>blivet_util_program_log_lock := program_log_lock,
        blivet_flags := installer_flags (conf w) (blivet_flags w)\<rparr>)"
proof -
  have w: "set_flags (\<lambda>w f. f\<lparr>allow_imperfect_devices := storage_allow_imperfect_devices (conf w)\<rparr>)
     (set_flags (\<lambda>w f. f\<lparr>multipath_friendly_names := storage_multipath_friendly_names (conf w)\<rparr>)
     (set_flags (\<lambda>w f. f\<lparr>ibft := storage_ibft (conf w)\<rparr>)
     (set_flags (\<lambda>w f. f\<lparr>dmraid := storage_dmraid (conf w)\<rparr>)
     (set_flags (\<lambda>w f. f\<lparr>selinux := security_selinux (conf w)\<rparr>)
     (set_flags (\<lambda>w f. f\<lparr>discard_new := True\<rparr>)
     (set_flags (\<lambda>w f. f\<lparr>keep_empty_ext_partitions := False\<rparr>)
     (set_flags (\<lambda>w f. f\<lparr>selinux_reset_fcon := True\<rparr>)
     (set_flags (\<lambda>w f. f\<lparr>auto_dev_updates := True\<rparr>)
     (if target_is_image (conf (set_flags (\<lambda>w f. f\<lparr>debug := True\<rparr>)
            (w\<lparr>blivet_util_program_log_lock := program_log_lock\<rparr>)))
      then set_flags (\<lambda>w f. f\<lparr>lvm_metadata_backup := False\<rparr>)
            (set_flags (\<lambda>w f. f\<lparr>debug := True\<rparr>) (w\<lparr>blivet_util_program_log_lock := program_log_lock\<rparr>))
      else set_flags (\<lambda>w f. f\<lparr>debug := True\<rparr>) (w\<lparr>blivet_util_program_log_lock := program_log_lock\<rparr>))))))))))
     = w\<lparr>blivet_util_program_log_lock := program_log_lock,
          blivet_flags := installer_flags (conf w) (blivet_flags w)\<rparr>"
    by (simp add: set_flags_def installer_flags_def)
  show ?thesis
    unfolding enable_installer_mode_def
    by (simp only: and_then_assign and_then_cond_assign w)
qed


lemma enable_installer_mode_world:
  "blivet_flags (world_of (enable_installer_mode env w)) = installer_flags (conf w) (blivet_flags w)
   \<and> blivet_util_program_log_lock (world_of (enable_installer_mode env w)) = program_log_lock
   \<and> conf (world_of (enable_installer_mode env w)) = conf w
   \<and> (device_name_blacklist (world_of (enable_installer_mode env w)) = device_name_blacklist w
      \<or> device_name_blacklist (world_of (enable_installer_mode env w))
          = [''^mtd'', ''^mmcblk.+boot'', ''^mmcblk.+rpmb'', ''^zram'', ''^ndblk''])
   \<and> (is_Return (enable_installer_mode env w) \<longrightarrow>
        device_name_blacklist (world_of (enable_installer_mode env w))
          = [''^mtd'', ''^mmcblk.+boot'', ''^mmcblk.+rpmb'', ''^zram'', ''^ndblk''])"
  unfolding enable_installer_mode_assignments
  by (simp add: and_then_def call_ext_def load_plugin_s390_def assign_def record_call_def Let_def
        split: option.splits)

lemma installer_flags_idem: "installer_flags c (installer_flags c f) = installer_flags c f"
  by (simp add: installer_flags_def)

text \<open>
  C7. In every environment and from every world, so for every static configuration: the
  flags of the storage library, and the lock installed in it, are the same after a second
  \<open>enable_installer_mode\<close> as after the first, whatever the outcome of either; and when the
  first invocation returned, so is the device-name blacklist.
\<close>

theorem enable_installer_mode_idempotent:
  "blivet_flags (world_of (enable_installer_mode env (world_of (enable_installer_mode env w))))
     = blivet_flags (world_of (enable_installer_mode env w))
   \<and> blivet_util_program_log_lock (world_of (enable_installer_mode env (world_of (enable_installer_mode env w))))
     = blivet_util_program_log_lock (world_of (enable_installer_mode env w))
   \<and> (is_Return (enable_installer_mode env w) \<longrightarrow>
        device_name_blacklist (world_of (enable_installer_mode env (world_of (enable_installer_mode env w))))
          = device_name_blacklist (world_of (enable_installer_mode env w)))"
proof -
  let ?w1 = "world_of (enable_installer_mode env w)"
  note 1 = enable_installer_mode_world [of env w]
  note 2 = enable_installer_mode_world [of env ?w1]
  from 1 2 show ?thesis
    by (auto simp: installer_flags_idem)
qed

lemma enable_installer_mode_quiet:
  assumes "raises env = no_exception"
  shows "is_Return (enable_installer_mode env w)"
  unfolding enable_installer_mode_assignments
  by (simp add: and_then_def call_ext_quiet [OF assms] load_plugin_s390_def assign_def Let_def)

theorem enable_installer_mode_idempotent_witness:
  "is_Return (enable_installer_mode quiet_env example_world)
   \<and> blivet_flags (world_of (enable_installer_mode quiet_env example_world))
       = \<lparr> debug = True, lvm_metadata_backup = True, auto_dev_updates = True,
           selinux_reset_fcon = True, keep_empty_ext_partitions = False,
           discard_new = True, selinux = 1, dmraid = True, ibft = True,
           multipath_friendly_names = True, allow_imperfect_devices = False,
           other_flags = [] \<rparr>
   \<and> blivet_flags (world_of (enable_installer_mode quiet_env (world_of (enable_installer_mode quiet_env example_world))))
       = blivet_flags (world_of (enable_installer_mode quiet_env example_world))
   \<and> device_name_blacklist (world_of (enable_installer_mode quiet_env (world_of (enable_installer_mode quiet_env example_world))))
       = device_name_blacklist (world_of (enable_installer_mode quiet_env example_world))"
proof -
  have r: "is_Return (enable_installer_mode quiet_env example_world)"
    by (rule enable_installer_mode_quiet) (simp add: quiet_env_def)
  have f: "blivet_flags (world_of (enable_installer_mode quiet_env example_world))
       = \<lparr> debug = True, lvm_metadata_backup = True, auto_dev_updates = True,
           selinux_reset_fcon = True, keep_empty_ext_partitions = False,
           discard_new = True, selinux = 1, dmraid = True, ibft = True,
           multipath_friendly_names = True, allow_imperfect_devices = False,
           other_flags = [] \<rparr>"
    using enable_installer_mode_world [of quiet_env example_world]
    by (simp add: installer_flags_def example_world_def)
  from enable_installer_mode_idempotent [of quiet_env example_world] r f show ?thesis
    by simp
qed

end
